theory Spec2Isabelle
  imports Complex_Main "HOL-Library.Word"
begin

section \<open>Producer side (App.js): the frame slicer\<close>

text \<open>
  An \<^verbatim>\<open>ArrayBuffer\<close> (and a Node \<^verbatim>\<open>Buffer\<close>) is a finite sequence of bytes.
\<close>

type_synonym buffer = "8 word list"

text \<open>
  \<^verbatim>\<open>const CHUNK_SIZE = 256 * 1024;\<close> and
  \<^verbatim>\<open>const BACKPRESSURE_HIGH = 4 * 1024 * 1024;\<close>
\<close>

definition CHUNK_SIZE :: int where
  "CHUNK_SIZE = 256 * 1024"

definition BACKPRESSURE_HIGH :: nat where
  "BACKPRESSURE_HIGH = 4 * 1024 * 1024"

text \<open>
  \<^verbatim>\<open>ArrayBuffer.prototype.slice(begin, end)\<close> on integer arguments: a negative index
  counts from the end of the buffer, both indices are clamped to the buffer, and the
  result holds \<open>max (final - first) 0\<close> bytes starting at \<open>first\<close>.
\<close>

definition slice_ab :: "buffer \<Rightarrow> int \<Rightarrow> int \<Rightarrow> buffer" where
  "slice_ab arrayBuffer bgn fin =
     (let len = int (length arrayBuffer);
          first = (if bgn < 0 then max (len + bgn) 0 else min bgn len);
          final = (if fin < 0 then max (len + fin) 0 else min fin len);
          newLen = max (final - first) 0
      in take (nat newLen) (drop (nat first) arrayBuffer))"

text \<open>
  The loop of \<^verbatim>\<open>sliceIntoChunks\<close>:
  \<^verbatim>\<open>for (let o = 0; o < arrayBuffer.byteLength; o += size) out.push(arrayBuffer.slice(o, o + size));\<close>
  Nothing in the source bounds the number of iterations, so the loop is a partial
  function: \<open>None\<close> is a loop that never leaves.
\<close>

partial_function (option) sliceLoop ::
  "buffer \<Rightarrow> int \<Rightarrow> int \<Rightarrow> buffer list \<Rightarrow> buffer list option" where
  "sliceLoop arrayBuffer sz off out =
     (if off < int (length arrayBuffer)
      then sliceLoop arrayBuffer sz (off + sz) (out @ [slice_ab arrayBuffer off (off + sz)])
      else Some out)"

text \<open>
  \<^verbatim>\<open>function sliceIntoChunks(arrayBuffer, size)\<close>. The argument \<^verbatim>\<open>size\<close> is an integer
  or is not given (\<open>None\<close>, JavaScript's \<^verbatim>\<open>undefined\<close>); \<^verbatim>\<open>!size\<close> holds for
  \<^verbatim>\<open>undefined\<close> and for \<^verbatim>\<open>0\<close>. The source has no \<^verbatim>\<open>throw\<close>: the function returns a
  list of pieces or does not return.
\<close>

definition sliceIntoChunks :: "buffer \<Rightarrow> int option \<Rightarrow> buffer list option" where
  "sliceIntoChunks arrayBuffer size_arg =
     (case size_arg of
        None \<Rightarrow> Some [arrayBuffer]
      | Some sz \<Rightarrow> if sz = 0 then Some [arrayBuffer] else sliceLoop arrayBuffer sz 0 [])"

section \<open>Producer side (App.js): the session state machine and the sender\<close>

text \<open>
  The values of the React state \<^verbatim>\<open>status\<close>:
  \<^verbatim>\<open>Idle | Connecting | StartingUpload | Ready | Recording | Stopping | Completed | Error\<close>.
\<close>

datatype status = Idle | Connecting | StartingUpload | Ready | Recording | Stopping | Completed | Error

datatype readyState = CONNECTING | OPEN | CLOSING | CLOSED

datatype promise = Pending | Fulfilled

text \<open>
  The control messages of the consumer (\<^verbatim>\<open>sendJSON\<close> in server.mjs), as the objects it
  builds: \<^verbatim>\<open>{type:'uploadInfo', key, uploadId, deferred}\<close>,
  \<^verbatim>\<open>{type:'partAck', partNumber, size, etag}\<close>, \<^verbatim>\<open>{type:'completed', location, key}\<close>,
  \<^verbatim>\<open>{type:'error', message}\<close>. A key or upload id can be \<^verbatim>\<open>null\<close> (\<open>None\<close>).
\<close>

datatype json =
    UploadInfo "string option" "string option" bool
  | PartAck nat nat string
  | CompletedAck "string option" "string option"
  | ErrorAck string

text \<open>
  What \<^verbatim>\<open>JSON.parse(evt.data)\<close> gives the producer: a parse error, the value
  \<^verbatim>\<open>null\<close>, one of the consumer's messages, or any other JSON value (its \<^verbatim>\<open>type\<close> is none
  of the four).
\<close>

datatype evt_data = NotJSON | JsonNull | FromServer json | OtherJSON

text \<open>
  What the consumer finds in a text frame after \<^verbatim>\<open>JSON.parse(data.toString())\<close>: a parse
  error, the value \<^verbatim>\<open>null\<close>, an object of type \<^verbatim>\<open>start\<close> or \<^verbatim>\<open>stop\<close>, or any other value.
  A frame on the channel is a text frame or a binary frame.
\<close>

datatype control = Malformed | JNull | Start | Stop | OtherControl

datatype message = Text control | Binary buffer

text \<open>
  The producer's \<^verbatim>\<open>WebSocket\<close> object. The handlers \<^verbatim>\<open>onmessage\<close> and \<^verbatim>\<open>onclose\<close> that
  \<^verbatim>\<open>startConnection\<close> installs on it are closures: the \<^verbatim>\<open>status\<close> they read is the
  constant \<^verbatim>\<open>const [status, setStatus] = useState('Idle')\<close> of the render in which
  \<^verbatim>\<open>startConnection\<close> ran, not the state at the time a message arrives. The field
  \<open>status_closure\<close> is that captured value.
\<close>

record websocket =
  readyState :: readyState
  bufferedAmount :: nat
  outbox :: "message list"
  status_closure :: status

text \<open>
  The component's state: the five \<^verbatim>\<open>useState\<close> values, the refs, and the lines written
  to the console. \<open>resolveCalls\<close> counts the calls of \<^verbatim>\<open>resolveSessionReadyRef.current()\<close>.
  \<open>recorderRef\<close> holds whether the recorder's state is other than \<^verbatim>\<open>inactive\<close>;
  \<open>srcObject\<close> whether the video element has a stream.
\<close>

record producer =
  status :: status
  partsUploaded :: nat
  bytesSent :: nat
  uploadKey :: "string option"
  errorMsg :: "string option"
  wsRef :: "websocket option"
  sessionReadyPromiseRef :: "promise option"
  sessionReadyRef :: bool
  resolveCalls :: nat
  recorderRef :: "bool option"
  srcObject :: bool
  console :: "string list"

definition App :: producer where
  "App = \<lparr>status = Idle, partsUploaded = 0, bytesSent = 0, uploadKey = None, errorMsg = None,
          wsRef = None, sessionReadyPromiseRef = None, sessionReadyRef = False,
          resolveCalls = 0, recorderRef = None, srcObject = False, console = []\<rparr>"

definition resetSessionPromise :: "producer \<Rightarrow> producer" where
  "resetSessionPromise p = p\<lparr>sessionReadyPromiseRef := Some Pending, sessionReadyRef := False\<rparr>"

definition wsIsOpen :: "producer \<Rightarrow> bool" where
  "wsIsOpen p = (case wsRef p of None \<Rightarrow> False | Some w \<Rightarrow> readyState w = OPEN)"

text \<open>\<^verbatim>\<open>wsRef.current.send(m)\<close>: the frame is queued and counted in \<^verbatim>\<open>bufferedAmount\<close>.\<close>

definition ws_send :: "message \<Rightarrow> nat \<Rightarrow> producer \<Rightarrow> producer" where
  "ws_send m bytes p =
     p\<lparr>wsRef := map_option
          (\<lambda>w. w\<lparr>outbox := outbox w @ [m], bufferedAmount := bufferedAmount w + bytes\<rparr>) (wsRef p)\<rparr>"

definition startConnection :: "producer \<Rightarrow> producer" where
  "startConnection p =
     (if wsIsOpen p then p
      else (resetSessionPromise p)
             \<lparr>status := Connecting, errorMsg := None,
              wsRef := Some \<lparr>readyState = CONNECTING, bufferedAmount = 0, outbox = [],
                             status_closure = status p\<rparr>\<rparr>)"

text \<open>\<^verbatim>\<open>onopen\<close>: the frame sent is \<^verbatim>\<open>JSON.stringify({ type: 'start' })\<close>, 16 bytes.\<close>

definition onopen :: "producer \<Rightarrow> producer" where
  "onopen p = ws_send (Text Start) 16 (p\<lparr>status := StartingUpload\<rparr>)"

definition cleanupMedia :: "producer \<Rightarrow> producer" where
  "cleanupMedia p = (if srcObject p then p\<lparr>srcObject := False\<rparr> else p)"

definition stopRecorderLocal :: "producer \<Rightarrow> producer" where
  "stopRecorderLocal p =
     cleanupMedia (if recorderRef p = Some True then p\<lparr>recorderRef := Some False\<rparr> else p)"

text \<open>
  \<^verbatim>\<open>wsRef.current.onmessage\<close>. Its first argument is the \<^verbatim>\<open>status\<close> of the closure. A value
  \<^verbatim>\<open>null\<close> makes \<^verbatim>\<open>msg.type\<close> throw out of the handler, and so does the call of a resolver
  that was never set: the handler ends there, with what it had changed.
\<close>

definition onmessage :: "status \<Rightarrow> evt_data \<Rightarrow> producer \<Rightarrow> producer" where
  "onmessage status_c d p =
     (case d of
        NotJSON \<Rightarrow> p
      | JsonNull \<Rightarrow> p
      | OtherJSON \<Rightarrow> p
      | FromServer (UploadInfo k u df) \<Rightarrow>
          (let p1 = p\<lparr>uploadKey := k\<rparr> in
           if \<not> sessionReadyRef p1
           then (let p2 = p1\<lparr>sessionReadyRef := True\<rparr> in
                 case sessionReadyPromiseRef p2 of
                   None \<Rightarrow> p2
                 | Some pr \<Rightarrow> p2\<lparr>sessionReadyPromiseRef := Some Fulfilled,
                                 resolveCalls := resolveCalls p2 + 1, status := Ready\<rparr>)
           else p1)
      | FromServer (PartAck n sz e) \<Rightarrow> p\<lparr>partsUploaded := partsUploaded p + 1\<rparr>
      | FromServer (CompletedAck l k) \<Rightarrow> p\<lparr>status := Completed\<rparr>
      | FromServer (ErrorAck m) \<Rightarrow>
          (let p1 = p\<lparr>console := console p @ [''Server error: '' @ m], errorMsg := Some m\<rparr>
           in if status_c \<noteq> Recording then p1\<lparr>status := Error\<rparr> else p1))"

definition onerror :: "producer \<Rightarrow> producer" where
  "onerror p = p\<lparr>console := console p @ [''WS error''],
                 errorMsg := Some ''WebSocket error'', status := Error\<rparr>"

definition onclose :: "status \<Rightarrow> producer \<Rightarrow> producer" where
  "onclose status_c p =
     (if status_c = Recording
      then (stopRecorderLocal p)\<lparr>errorMsg := Some ''Connection lost during recording'',
                                   status := Error\<rparr>
      else p)"

text \<open>
  \<^verbatim>\<open>startRecording\<close>. What the browser answers is its argument: the media are granted, the
  browser has no \<^verbatim>\<open>MediaRecorder\<close>, \<^verbatim>\<open>getUserMedia\<close> throws, or a later call
  (\<^verbatim>\<open>play\<close>, \<^verbatim>\<open>new MediaRecorder\<close>) throws once the stream is attached; a thrown error
  carries \<^verbatim>\<open>err.message\<close>. \<^verbatim>\<open>await ensureSessionReady()\<close> goes on at once when the flag is
  set, when there is no promise (\<^verbatim>\<open>await null\<close>) and when the promise is fulfilled. With a
  pending promise the function waits there: it is written here up to that point, and such
  a call changes nothing.
\<close>

datatype media = MediaGranted | NoMediaRecorder | MediaThrows string | PlayThrows string

definition startRecording :: "media \<Rightarrow> producer \<Rightarrow> producer" where
  "startRecording m p =
     (if \<not> sessionReadyRef p \<and> sessionReadyPromiseRef p = Some Pending then p
      else case m of
        NoMediaRecorder \<Rightarrow> p\<lparr>errorMsg := Some ''MediaRecorder not supported'', status := Error\<rparr>
      | MediaThrows e \<Rightarrow> p\<lparr>console := console p @ [e], errorMsg := Some e, status := Error\<rparr>
      | PlayThrows e \<Rightarrow>
          p\<lparr>srcObject := True, console := console p @ [e], errorMsg := Some e, status := Error\<rparr>
      | MediaGranted \<Rightarrow>
          p\<lparr>srcObject := True, recorderRef := Some True, status := Recording,
            partsUploaded := 0, bytesSent := 0\<rparr>)"

text \<open>
  \<^verbatim>\<open>stopRecording\<close> is the click handler of the latest render, so the \<^verbatim>\<open>status\<close> it reads
  is the current one. The frame sent is \<^verbatim>\<open>JSON.stringify({ type: 'stop' })\<close>, 15 bytes.
\<close>

definition stopRecording :: "producer \<Rightarrow> producer" where
  "stopRecording p =
     (if status p \<noteq> Recording then p
      else (let p1 = stopRecorderLocal (p\<lparr>status := Stopping\<rparr>) in
            if wsIsOpen p1 then (ws_send (Text Stop) 15 p1)\<lparr>sessionReadyRef := False\<rparr> else p1))"

text \<open>The three buttons are disabled unless these hold.\<close>

definition canConnect :: "status \<Rightarrow> bool" where
  "canConnect st = (st = Idle \<or> st = Error \<or> st = Completed)"

definition canRecord :: "status \<Rightarrow> bool" where
  "canRecord st = (st = Ready)"

definition canStop :: "status \<Rightarrow> bool" where
  "canStop st = (st = Recording)"

text \<open>
  The events the component reacts to, handled one at a time. A click on a disabled button
  does nothing. The socket's events set its \<^verbatim>\<open>readyState\<close> and run the handler installed
  on the socket, with the status its closure holds.
\<close>

datatype app_event =
    ClickConnect | ClickRecord media | ClickStop
  | WsOpen | WsMessage evt_data | WsError | WsClose

definition set_readyState :: "readyState \<Rightarrow> producer \<Rightarrow> producer" where
  "set_readyState r p = p\<lparr>wsRef := map_option (\<lambda>w. w\<lparr>readyState := r\<rparr>) (wsRef p)\<rparr>"

definition app_step :: "app_event \<Rightarrow> producer \<Rightarrow> producer" where
  "app_step e p =
     (case e of
        ClickConnect \<Rightarrow> if canConnect (status p) then startConnection p else p
      | ClickRecord m \<Rightarrow> if canRecord (status p) then startRecording m p else p
      | ClickStop \<Rightarrow> if canStop (status p) then stopRecording p else p
      | WsOpen \<Rightarrow> (case wsRef p of None \<Rightarrow> p | Some w \<Rightarrow> onopen (set_readyState OPEN p))
      | WsMessage d \<Rightarrow> (case wsRef p of None \<Rightarrow> p | Some w \<Rightarrow> onmessage (status_closure w) d p)
      | WsError \<Rightarrow> (case wsRef p of None \<Rightarrow> p | Some w \<Rightarrow> onerror p)
      | WsClose \<Rightarrow> (case wsRef p of None \<Rightarrow> p
                    | Some w \<Rightarrow> onclose (status_closure w) (set_readyState CLOSED p)))"

definition app_run :: "app_event list \<Rightarrow> producer \<Rightarrow> producer" where
  "app_run es p = foldl (\<lambda>q e. app_step e q) p es"

subsection \<open>The send loop of \<^verbatim>\<open>recorder.ondataavailable\<close>\<close>

text \<open>
  An async function ends by returning or by throwing to its caller.
\<close>

datatype 'a completion = Returns 'a | Throws string

text \<open>
  The browser drains and closes the socket while the sender waits: \<open>chan n\<close> is the
  \<^verbatim>\<open>readyState\<close> and the \<^verbatim>\<open>bufferedAmount\<close> the sender finds after its \<open>n\<close>-th wait of 50 ms.
\<close>

type_synonym channel = "nat \<Rightarrow> readyState \<times> nat"

definition observe :: "readyState \<times> nat \<Rightarrow> producer \<Rightarrow> producer" where
  "observe o_n p =
     p\<lparr>wsRef := map_option (\<lambda>w. w\<lparr>readyState := fst o_n, bufferedAmount := snd o_n\<rparr>) (wsRef p)\<rparr>"

definition mustWait :: "producer \<Rightarrow> bool" where
  "mustWait p = (case wsRef p of None \<Rightarrow> False
                 | Some w \<Rightarrow> readyState w = OPEN \<and> BACKPRESSURE_HIGH < bufferedAmount w)"

text \<open>
  \<^verbatim>\<open>while (wsRef.current && wsRef.current.readyState === WebSocket.OPEN &&
          wsRef.current.bufferedAmount > BACKPRESSURE_HIGH) await new Promise(r => setTimeout(r, 50));\<close>
  The loop has no bound: \<open>None\<close> is a wait that never ends. The result is the number of
  waits so far and the state the loop leaves.
\<close>

partial_function (option) backpressureWait ::
  "channel \<Rightarrow> nat \<Rightarrow> producer \<Rightarrow> (nat \<times> producer) option" where
  "backpressureWait chan n p =
     (if mustWait p then backpressureWait chan (Suc n) (observe (chan n) p)
      else Some (n, p))"

text \<open>
  \<^verbatim>\<open>for (const c of chunks) { ...wait...; if (open) { send(c); setBytesSent(b => b + c.byteLength) }
      else { console.warn('Socket closed mid-send'); break; } }\<close>
\<close>

fun sendChunks :: "channel \<Rightarrow> nat \<Rightarrow> buffer list \<Rightarrow> producer \<Rightarrow> (nat \<times> producer) completion option" where
  "sendChunks chan n [] p = Some (Returns (n, p))"
| "sendChunks chan n (c # cs) p =
     (case backpressureWait chan n p of
        None \<Rightarrow> None
      | Some (n', p') \<Rightarrow>
          if wsIsOpen p'
          then sendChunks chan n' cs
                 ((ws_send (Binary c) (length c) p')\<lparr>bytesSent := bytesSent p' + length c\<rparr>)
          else Some (Returns (n', p'\<lparr>console := console p' @ [''Socket closed mid-send'']\<rparr>)))"

text \<open>
  \<^verbatim>\<open>recorder.ondataavailable = async e => { ... }\<close>, on the bytes of \<^verbatim>\<open>e.data\<close>.
\<close>

definition ondataavailable :: "channel \<Rightarrow> buffer \<Rightarrow> producer \<Rightarrow> (nat \<times> producer) completion option" where
  "ondataavailable chan e_data p =
     (if length e_data = 0 then Some (Returns (0, p))
      else if \<not> sessionReadyRef p then Some (Returns (0, p))
      else (case sliceIntoChunks e_data (Some CHUNK_SIZE) of
              None \<Rightarrow> None
            | Some chunks \<Rightarrow> sendChunks chan 0 chunks p))"

section \<open>Consumer side (server.mjs): the upload aggregator\<close>

definition BUCKET :: string where
  "BUCKET = ''vibhav-live-video''"

definition MIN_PART_SIZE :: nat where
  "MIN_PART_SIZE = 5 * 1024 * 1024"

definition TARGET_PART_SIZE :: nat where
  "TARGET_PART_SIZE = 6 * 1024 * 1024"

text \<open>An entry of \<^verbatim>\<open>session.parts\<close>: \<^verbatim>\<open>{ PartNumber, ETag }\<close>.\<close>

record part =
  PartNumber :: nat
  ETag :: string

text \<open>\<^verbatim>\<open>session = { key, uploadId: res.UploadId, parts: [] }\<close>\<close>

record session =
  session_key :: "string option"
  uploadId :: string
  parts :: "part list"

text \<open>
  The commands sent to the store with \<^verbatim>\<open>s3.send\<close>, with the fields the source gives them
  (the bucket and the content type are constants), and the two ways the awaited call
  ends: it resolves (with the \<^verbatim>\<open>UploadId\<close>, the \<^verbatim>\<open>ETag\<close> or the \<^verbatim>\<open>Location\<close> of the response)
  or it rejects (with \<^verbatim>\<open>err.message\<close>).
\<close>

datatype s3command =
    CreateMultipartUploadCommand "string option"
  | UploadPartCommand "string option" string nat buffer
  | CompleteMultipartUploadCommand "string option" string "part list"
  | AbortMultipartUploadCommand "string option" string
  | PutObjectCommand "string option" buffer

datatype s3result = Resolves string | Rejects string

text \<open>
  What the handlers do not decide: the text \<^verbatim>\<open>${Date.now()}-${uuid()}\<close> of the \<open>n\<close>-th key,
  and whether the socket is \<^verbatim>\<open>OPEN\<close> at the \<open>n\<close>-th call of \<^verbatim>\<open>sendJSON\<close>.
\<close>

record env =
  stamp :: "nat \<Rightarrow> string"
  wsOpen :: "nat \<Rightarrow> bool"

text \<open>
  The handlers are async functions. A handler runs until it reaches an \<^verbatim>\<open>await\<close>; there
  it gives up control, and other handlers of the same connection run before it goes on.
  What is left of a waiting handler is the place where it waits, with the local constants
  it still needs:
  \<^item> \<open>InStartMultipart\<close>: in \<^verbatim>\<open>startMultipart\<close>, called by the binary branch, at
    \<^verbatim>\<open>await s3.send(new CreateMultipartUploadCommand(...))\<close>;
  \<^item> \<open>InFlushPart c body\<close>: in \<^verbatim>\<open>flushPart\<close>, called by the binary branch or by
    \<^verbatim>\<open>completeUpload\<close>, at \<^verbatim>\<open>await s3.send(new UploadPartCommand(...))\<close>, with the constant
    \<^verbatim>\<open>body\<close>;
  \<^item> \<open>InPutObject\<close>, \<open>InComplete\<close>: in \<^verbatim>\<open>completeUpload\<close>, at the awaited single write and at
    the awaited \<^verbatim>\<open>CompleteMultipartUploadCommand\<close>;
  \<^item> \<open>InAbort\<close>: in the close handler, at the awaited abort call;
  \<^item> \<open>AfterStartMultipart\<close>, \<open>AfterFlushPart c\<close>: at \<^verbatim>\<open>await startMultipart()\<close> or
    \<^verbatim>\<open>await flushPart(...)\<close> when the function called has returned without a store call:
    the promise is already resolved, and the handler still gives up control once.
  When a function that waited at a store call returns, its caller goes on in the same
  turn of the microtask queue, before any further event of the connection.
\<close>

datatype caller = FromBinary | FromStop

datatype cont =
    InStartMultipart
  | AfterStartMultipart
  | InFlushPart caller buffer
  | AfterFlushPart caller
  | InPutObject
  | InComplete
  | InAbort

text \<open>
  The variables of one connection (\<^verbatim>\<open>wss.on('connection', ws => { let ... })\<close>), and what
  the connection has done so far: the commands sent to the store, the objects given to
  \<^verbatim>\<open>sendJSON\<close> (each with whether it went out), the number of keys made, and the handlers
  that wait. The flag \<^verbatim>\<open>closed\<close> of the source is the field \<open>closed_c\<close>.
\<close>

record conn =
  session :: "session option"
  partNumber :: nat
  closed_c :: bool
  aggBuffers :: "buffer list"
  aggBytes :: nat
  totalReceivedBytes :: nat
  usingMultipart :: bool
  key :: "string option"
  s3log :: "s3command list"
  jsonLog :: "(json \<times> bool) list"
  keysMade :: nat
  pending :: "cont list"

definition connection :: conn where
  "connection = \<lparr>session = None, partNumber = 0, closed_c = False, aggBuffers = [],
                  aggBytes = 0, totalReceivedBytes = 0, usingMultipart = False, key = None,
                  s3log = [], jsonLog = [], keysMade = 0, pending = []\<rparr>"

text \<open>A part of a function ends normally or throws; what it had assigned stays assigned.\<close>

datatype outcome = Done | Threw string

text \<open>\<^verbatim>\<open>if (key)\<close>: \<^verbatim>\<open>null\<close> and the empty string are falsy.\<close>

definition truthy :: "string option \<Rightarrow> bool" where
  "truthy k = (case k of None \<Rightarrow> False | Some t \<Rightarrow> t \<noteq> [])"

text \<open>\<^verbatim>\<open>if (ws.readyState === ws.OPEN) ws.send(JSON.stringify(obj))\<close>\<close>

definition sendJSON :: "env \<Rightarrow> json \<Rightarrow> conn \<Rightarrow> conn" where
  "sendJSON ev obj s = s\<lparr>jsonLog := jsonLog s @ [(obj, wsOpen ev (length (jsonLog s)))]\<rparr>"

text \<open>
  \<^verbatim>\<open>await s3.send(cmd)\<close>: the command goes to the store and the handler waits at \<open>k\<close>.
  \<open>yield k\<close> is an \<^verbatim>\<open>await\<close> of a promise that is already resolved.
\<close>

definition s3_send :: "s3command \<Rightarrow> cont \<Rightarrow> conn \<Rightarrow> conn" where
  "s3_send cmd k s = s\<lparr>s3log := s3log s @ [cmd], pending := pending s @ [k]\<rparr>"

definition yield :: "cont \<Rightarrow> conn \<Rightarrow> conn" where
  "yield k s = s\<lparr>pending := pending s @ [k]\<rparr>"

text \<open>
  \<^verbatim>\<open>Buffer.concat(list, totalLength)\<close>: the buffers in order, cut to \<open>totalLength\<close> bytes, and
  filled with zero bytes when they are fewer.
\<close>

definition Buffer_concat :: "buffer list \<Rightarrow> nat \<Rightarrow> buffer" where
  "Buffer_concat list totalLength = take totalLength (concat list @ replicate totalLength 0)"

text \<open>
  The message of the \<^verbatim>\<open>TypeError\<close> thrown when a field \<open>f\<close> of \<^verbatim>\<open>null\<close> is read.
\<close>

definition null_error :: "string \<Rightarrow> string" where
  "null_error f =
     ''Cannot read properties of null (reading '' @ [CHR 0x27] @ f @ [CHR 0x27] @ '')''"

text \<open>
  \<^verbatim>\<open>startMultipart\<close>, lines 68-77, up to the awaited call: the result says whether the
  function waits at the store call (\<open>True\<close>) or has returned.
\<close>

definition startMultipart :: "conn \<Rightarrow> bool \<times> conn" where
  "startMultipart s =
     (if usingMultipart s then (False, s)
      else (True, s3_send (CreateMultipartUploadCommand (key s)) InStartMultipart s))"

text \<open>
  \<^verbatim>\<open>startMultipart\<close>, lines 78-83, when the store has answered: \<^verbatim>\<open>key\<close> is read and
  \<^verbatim>\<open>session\<close> and \<^verbatim>\<open>usingMultipart\<close> are assigned now, whatever ran in between.
\<close>

definition startMultipart_resumed :: "env \<Rightarrow> s3result \<Rightarrow> conn \<Rightarrow> outcome \<times> conn" where
  "startMultipart_resumed ev r s =
     (case r of
        Rejects e \<Rightarrow> (Threw e, s)
      | Resolves uid \<Rightarrow>
          (let s1 = s\<lparr>session := Some \<lparr>session_key = key s, uploadId = uid, parts = []\<rparr>,
                      usingMultipart := True\<rparr>
           in (Done, sendJSON ev (UploadInfo (key s) (Some uid) False) s1)))"

text \<open>
  \<^verbatim>\<open>flushPart\<close>, lines 89-108, up to the awaited call. The part number of the command and
  the body are fixed here, and the buffer is emptied before the call.
\<close>

definition flushPart :: "caller \<Rightarrow> bool \<Rightarrow> conn \<Rightarrow> bool \<times> conn" where
  "flushPart c isFinal s =
     (case session s of
        None \<Rightarrow> (False, s)
      | Some sess \<Rightarrow>
          if \<not> usingMultipart s then (False, s)
          else if aggBytes s = 0 then (False, s)
          else if \<not> isFinal \<and> aggBytes s < MIN_PART_SIZE then (False, s)
          else (let n = partNumber s + 1;
                    body = Buffer_concat (aggBuffers s) (aggBytes s);
                    s1 = s\<lparr>partNumber := n, aggBuffers := [], aggBytes := 0\<rparr>
                in (True, s3_send (UploadPartCommand (session_key sess) (uploadId sess) n body)
                            (InFlushPart c body) s1)))"

text \<open>
  \<^verbatim>\<open>flushPart\<close>, lines 110-121, when the store has answered: \<^verbatim>\<open>session\<close> and
  \<^verbatim>\<open>partNumber\<close> are the shared variables as they are now; \<^verbatim>\<open>session.parts\<close> throws when
  \<^verbatim>\<open>session\<close> is \<^verbatim>\<open>null\<close>.
\<close>

definition flushPart_resumed :: "env \<Rightarrow> buffer \<Rightarrow> s3result \<Rightarrow> conn \<Rightarrow> outcome \<times> conn" where
  "flushPart_resumed ev body r s =
     (case r of
        Rejects e \<Rightarrow> (Threw e, s)
      | Resolves etag \<Rightarrow>
          (case session s of
             None \<Rightarrow> (Threw (null_error ''parts''), s)
           | Some sess \<Rightarrow>
               (let s1 = s\<lparr>session := Some (sess\<lparr>parts := parts sess @
                                         [\<lparr>PartNumber = partNumber s, ETag = etag\<rparr>]\<rparr>)\<rparr>
                in (Done, sendJSON ev (PartAck (partNumber s) (length body) etag) s1))))"

text \<open>
  The \<^verbatim>\<open>catch\<close> of the message handler (lines 239-242), and the \<^verbatim>\<open>catch\<close> and \<^verbatim>\<open>finally\<close> of
  the stop branch (lines 202-213).
\<close>

definition catch_message :: "env \<Rightarrow> string \<Rightarrow> conn \<Rightarrow> conn" where
  "catch_message ev e s = sendJSON ev (ErrorAck (if e = [] then ''Upload error'' else e)) s"

definition reset :: "conn \<Rightarrow> conn" where
  "reset s = s\<lparr>session := None, key := None, partNumber := 0, aggBuffers := [],
               aggBytes := 0, usingMultipart := False\<rparr>"

definition stop_failed :: "env \<Rightarrow> conn \<Rightarrow> conn" where
  "stop_failed ev s = reset (sendJSON ev (ErrorAck ''Complete multipart failed'') s)"

text \<open>
  The binary branch from line 234 on, after \<^verbatim>\<open>await startMultipart()\<close> or when it was not
  called.
\<close>

definition after_startMultipart :: "conn \<Rightarrow> conn" where
  "after_startMultipart s =
     (if usingMultipart s \<and> TARGET_PART_SIZE \<le> aggBytes s
      then (case flushPart FromBinary False s of
              (True, s1) \<Rightarrow> s1
            | (False, s1) \<Rightarrow> yield (AfterFlushPart FromBinary) s1)
      else s)"

text \<open>The binary branch, lines 218-232, up to its first \<^verbatim>\<open>await\<close>.\<close>

definition onBinary :: "env \<Rightarrow> buffer \<Rightarrow> conn \<Rightarrow> conn" where
  "onBinary ev data s =
     (if \<not> truthy (key s)
      then sendJSON ev (ErrorAck ''No active session'') s
      else (let s1 = s\<lparr>aggBuffers := aggBuffers s @ [data],
                       aggBytes := aggBytes s + length data,
                       totalReceivedBytes := totalReceivedBytes s + length data\<rparr>
            in if \<not> usingMultipart s1 \<and> MIN_PART_SIZE \<le> aggBytes s1
               then (case startMultipart s1 of
                       (True, s2) \<Rightarrow> s2
                     | (False, s2) \<Rightarrow> yield AfterStartMultipart s2)
               else after_startMultipart s1))"

text \<open>
  \<^verbatim>\<open>completeUpload\<close>, lines 127-143, up to its first \<^verbatim>\<open>await\<close>: the single write, or the
  forced flush.
\<close>

definition completeUpload :: "conn \<Rightarrow> conn" where
  "completeUpload s =
     (if \<not> usingMultipart s
      then s3_send (PutObjectCommand (key s) (Buffer_concat (aggBuffers s) (aggBytes s)))
             InPutObject s
      else (case flushPart FromStop True s of
              (True, s1) \<Rightarrow> s1
            | (False, s1) \<Rightarrow> yield (AfterFlushPart FromStop) s1))"

text \<open>
  \<^verbatim>\<open>completeUpload\<close>, lines 144-155, after \<^verbatim>\<open>await flushPart(true)\<close>: \<^verbatim>\<open>session.uploadId\<close>
  throws when \<^verbatim>\<open>session\<close> is \<^verbatim>\<open>null\<close>; the parts are sorted in place by part number and sent.
\<close>

definition after_flushPart_final :: "env \<Rightarrow> conn \<Rightarrow> conn" where
  "after_flushPart_final ev s =
     (case session s of
        None \<Rightarrow> stop_failed ev s
      | Some sess \<Rightarrow>
          (let sess1 = sess\<lparr>parts := sort_key PartNumber (parts sess)\<rparr>;
               s1 = s\<lparr>session := Some sess1\<rparr>
           in s3_send (CompleteMultipartUploadCommand (session_key sess1) (uploadId sess1)
                         (parts sess1)) InComplete s1))"

text \<open>
  The location of the single write is the template \<^verbatim>\<open>`s3://${BUCKET}/${key}`\<close>, in which a
  \<^verbatim>\<open>null\<close> key prints as \<^verbatim>\<open>null\<close>.
\<close>

definition location_of :: "string option \<Rightarrow> string" where
  "location_of k = ''s3://'' @ BUCKET @ ''/'' @ (case k of None \<Rightarrow> ''null'' | Some t \<Rightarrow> t)"

text \<open>
  The text branch of \<^verbatim>\<open>ws.on('message', ...)\<close>, lines 173-216, up to its first \<^verbatim>\<open>await\<close>. The
  key of a new session is \<^verbatim>\<open>`recordings/${Date.now()}-${uuid()}.webm`\<close>. With the value
  \<^verbatim>\<open>null\<close>, \<^verbatim>\<open>msg.type\<close> throws.
\<close>

definition new_key :: "env \<Rightarrow> conn \<Rightarrow> string" where
  "new_key ev s = ''recordings/'' @ stamp ev (keysMade s) @ ''.webm''"

definition onControl :: "env \<Rightarrow> control \<Rightarrow> conn \<Rightarrow> conn" where
  "onControl ev msg s =
     (case msg of
        Malformed \<Rightarrow> sendJSON ev (ErrorAck ''Invalid JSON control message'') s
      | JNull \<Rightarrow> catch_message ev (null_error ''type'') s
      | Start \<Rightarrow>
          if truthy (key s)
          then sendJSON ev (ErrorAck ''Upload already in progress'') s
          else (let k = new_key ev s;
                    s1 = s\<lparr>key := Some k, keysMade := keysMade s + 1\<rparr>
                in sendJSON ev (UploadInfo (Some k) None True) s1)
      | Stop \<Rightarrow>
          if \<not> truthy (key s)
          then sendJSON ev (ErrorAck ''No active session to stop'') s
          else completeUpload s
      | OtherControl \<Rightarrow> s)"

text \<open>
  \<^verbatim>\<open>ws.on('message', async (data, isBinary) => { if (closed) return; ... })\<close>: the handler of
  a frame, up to its first \<^verbatim>\<open>await\<close>.
\<close>

definition onMessage :: "env \<Rightarrow> message \<Rightarrow> conn \<Rightarrow> conn" where
  "onMessage ev m s =
     (if closed_c s then s
      else case m of Text c \<Rightarrow> onControl ev c s | Binary d \<Rightarrow> onBinary ev d s)"

text \<open>
  \<^verbatim>\<open>ws.on('close', ...)\<close>, up to the awaited abort call; nothing follows the call, and its
  failure is swallowed.
\<close>

definition onClose :: "conn \<Rightarrow> conn" where
  "onClose s =
     (let s1 = s\<lparr>closed_c := True\<rparr> in
      case session s1 of
        None \<Rightarrow> s1
      | Some sess \<Rightarrow>
          if usingMultipart s1
          then s3_send (AbortMultipartUploadCommand (session_key sess) (uploadId sess)) InAbort s1
          else s1)"

text \<open>
  A waiting handler goes on, with the answer \<open>r\<close> of the store to its call (for a handler
  that waits at a promise already resolved there is no answer to look at). It runs to its
  next \<^verbatim>\<open>await\<close> or to its end: an error thrown in the binary branch goes to the \<^verbatim>\<open>catch\<close>
  of the handler, an error thrown under \<^verbatim>\<open>completeUpload\<close> to the \<^verbatim>\<open>catch\<close> of the stop
  branch, and the stop branch ends in its \<^verbatim>\<open>finally\<close> block.
\<close>

definition resume :: "env \<Rightarrow> cont \<Rightarrow> s3result \<Rightarrow> conn \<Rightarrow> conn" where
  "resume ev k r s =
     (case k of
        InStartMultipart \<Rightarrow>
          (case startMultipart_resumed ev r s of
             (Threw e, s1) \<Rightarrow> catch_message ev e s1
           | (Done, s1) \<Rightarrow> after_startMultipart s1)
      | AfterStartMultipart \<Rightarrow> after_startMultipart s
      | InFlushPart c body \<Rightarrow>
          (case flushPart_resumed ev body r s of
             (Threw e, s1) \<Rightarrow>
               (case c of FromBinary \<Rightarrow> catch_message ev e s1 | FromStop \<Rightarrow> stop_failed ev s1)
           | (Done, s1) \<Rightarrow>
               (case c of FromBinary \<Rightarrow> s1 | FromStop \<Rightarrow> after_flushPart_final ev s1))
      | AfterFlushPart c \<Rightarrow>
          (case c of FromBinary \<Rightarrow> s | FromStop \<Rightarrow> after_flushPart_final ev s)
      | InPutObject \<Rightarrow>
          (case r of
             Rejects e \<Rightarrow> stop_failed ev s
           | Resolves x \<Rightarrow>
               reset (sendJSON ev (CompletedAck (Some (location_of (key s))) (key s)) s))
      | InComplete \<Rightarrow>
          (case r of
             Rejects e \<Rightarrow> stop_failed ev s
           | Resolves loc \<Rightarrow>
               (case session s of
                  None \<Rightarrow> stop_failed ev s
                | Some sess \<Rightarrow> reset (sendJSON ev (CompletedAck (Some loc) (session_key sess)) s)))
      | InAbort \<Rightarrow> s)"

text \<open>
  The events of a connection: a frame arrives, the socket closes, or the \<open>i\<close>-th of the
  waiting handlers (from 0, in the order in which they began to wait) goes on with the
  answer \<open>r\<close>. The events come in any order: nothing makes a frame wait for the handlers
  of the frames before it.
\<close>

datatype event = Message message | Close | Settle nat s3result

definition step :: "env \<Rightarrow> event \<Rightarrow> conn \<Rightarrow> conn" where
  "step ev e s =
     (case e of
        Message m \<Rightarrow> onMessage ev m s
      | Close \<Rightarrow> onClose s
      | Settle i r \<Rightarrow>
          if i < length (pending s)
          then resume ev (pending s ! i) r
                 (s\<lparr>pending := take i (pending s) @ drop (Suc i) (pending s)\<rparr>)
          else s)"

definition run :: "env \<Rightarrow> event list \<Rightarrow> conn \<Rightarrow> conn" where
  "run ev es s = foldl (\<lambda>q e. step ev e q) s es"

subsection \<open>What a connection has sent to the store\<close>

text \<open>
  The commit calls (\<^verbatim>\<open>UploadPartCommand\<close>) among the commands, each as its part number and
  the size of its body, and the keys of the begin calls (\<^verbatim>\<open>CreateMultipartUploadCommand\<close>).
\<close>

fun uploads :: "s3command list \<Rightarrow> (nat \<times> nat) list" where
  "uploads [] = []"
| "uploads (UploadPartCommand k u n b # cs) = (n, length b) # uploads cs"
| "uploads (c # cs) = uploads cs"

fun begins :: "s3command list \<Rightarrow> string option list" where
  "begins [] = []"
| "begins (CreateMultipartUploadCommand k # cs) = k # begins cs"
| "begins (c # cs) = begins cs"

text \<open>The state the \<^verbatim>\<open>finally\<close> block leaves, and a new connection is in.\<close>

definition is_reset :: "conn \<Rightarrow> bool" where
  "is_reset s = (session s = None \<and> key s = None \<and> partNumber s = 0 \<and> aggBuffers s = []
                 \<and> aggBytes s = 0 \<and> \<not> usingMultipart s)"


section \<open>Invariants and concrete runs\<close>

subsection \<open>Producer\<close>

text \<open>
  What holds in every state the component reaches: the phase \<open>Ready\<close> is only entered
  with the readiness flag set; there is a socket unless the component is still \<open>Idle\<close>;
  and the handlers of the socket hold a status at which the Connect button was enabled.
\<close>

definition app_inv :: "producer \<Rightarrow> bool" where
  "app_inv p = ((status p = Ready \<longrightarrow> sessionReadyRef p)
              \<and> (wsRef p = None \<longrightarrow> status p = Idle)
              \<and> (case wsRef p of None \<Rightarrow> True | Some w \<Rightarrow> canConnect (status_closure w)))"

text \<open>Two states that differ at most in the socket's \<^verbatim>\<open>readyState\<close> and \<^verbatim>\<open>bufferedAmount\<close>.\<close>

definition same_but_channel :: "producer \<Rightarrow> producer \<Rightarrow> bool" where
  "same_but_channel p q =
     (q\<lparr>wsRef := wsRef p\<rparr> = p
      \<and> map_option outbox (wsRef q) = map_option outbox (wsRef p)
      \<and> map_option status_closure (wsRef q) = map_option status_closure (wsRef p))"

text \<open>
  A user connects, the socket opens and the consumer acknowledges the session with key
  \<^verbatim>\<open>a\<close>; then the user records; then the socket closes.
\<close>

definition ready_trace :: "app_event list" where
  "ready_trace = [ClickConnect, WsOpen, WsMessage (FromServer (UploadInfo (Some ''a'') None True))]"

definition recording_trace :: "app_event list" where
  "recording_trace = ready_trace @ [ClickRecord MediaGranted]"

definition closed_trace :: "app_event list" where
  "closed_trace = recording_trace @ [WsClose]"

text \<open>A channel that is found closed, and one that stays congested for a wait and then closes.\<close>

definition dead_channel :: channel where
  "dead_channel n = (CLOSED, 0)"

definition closing_channel :: channel where
  "closing_channel n = (if n = 0 then (OPEN, 5 * 1024 * 1024) else (CLOSED, 5 * 1024 * 1024))"

definition congested :: producer where
  "congested = observe (OPEN, 5 * 1024 * 1024) (app_run recording_trace App)"

subsection \<open>Consumer\<close>

definition pos_uploads :: "s3command list \<Rightarrow> bool" where
  "pos_uploads cs = list_all (\<lambda>u. 0 < snd u) (uploads cs)"

text \<open>
  Frames of \<open>n\<close> zero bytes, and an environment in which the socket stays open and the
  \<open>n\<close>-th key is stamped with \<open>n + 1\<close> letters.
\<close>

definition frame :: "nat \<Rightarrow> buffer" where
  "frame n = replicate n 0"

definition quiet :: env where
  "quiet = \<lparr>stamp = (\<lambda>n. replicate (Suc n) CHR ''t''), wsOpen = (\<lambda>n. True)\<rparr>"

text \<open>
  Scenario A of the specification, with every call answered before the next frame
  arrives: three frames of 2 MiB; the store accepts the begin call and then the commit
  call; the stop request arrives, the handler goes on after the flush that had nothing to
  send, and the store accepts the complete call.
\<close>

definition two_frames :: "event list" where
  "two_frames = [Message (Text Start), Message (Binary (frame (2 * 1024 * 1024))),
                 Message (Binary (frame (2 * 1024 * 1024)))]"

definition committed_A :: "event list" where
  "committed_A = two_frames @ [Message (Binary (frame (2 * 1024 * 1024))),
                               Settle 0 (Resolves ''u''), Settle 0 (Resolves ''e'')]"

definition scenario_A :: "event list" where
  "scenario_A = committed_A @ [Message (Text Stop), Settle 0 (Resolves []),
                               Settle 0 (Resolves ''l'')]"

text \<open>
  The same frames when the stop request arrives while the commit call is still
  outstanding.
\<close>

definition early_stop_A :: "event list" where
  "early_stop_A = two_frames @ [Message (Binary (frame (2 * 1024 * 1024))),
                                Settle 0 (Resolves ''u''), Message (Text Stop),
                                Settle 1 (Resolves [])]"

text \<open>
  Two frames that arrive before the store has answered the begin call; two frames of
  6 MiB of which the second arrives before the store has answered the first commit call;
  and a stop request that arrives before the store has answered the begin call, which it
  answers after the single write.
\<close>

definition begin_twice :: "event list" where
  "begin_twice = [Message (Text Start), Message (Binary (frame (5 * 1024 * 1024))),
                  Message (Binary (frame 1)),
                  Settle 0 (Resolves ''u1''), Settle 0 (Resolves ''u2'')]"

definition two_commits_in_flight :: "event list" where
  "two_commits_in_flight =
     [Message (Text Start), Message (Binary (frame (6 * 1024 * 1024))),
      Settle 0 (Resolves ''u''), Message (Binary (frame (6 * 1024 * 1024))),
      Settle 0 (Resolves ''a''), Settle 0 (Resolves ''b'')]"



section \<open>The frame slicer: pieces, concatenation, count and termination\<close>

lemma slice_ab_step:
  assumes "0 \<le> off" "off < int (length ab)" "0 < sz"
  shows "slice_ab ab off (off + sz) = take (nat sz) (drop (nat off) ab)"
  using assms by (auto simp: slice_ab_def Let_def min_def max_def)

lemma ceil_div_aux:
  assumes a: "0 < (sz::int)"
  shows "- (- n div sz) = (n + sz - 1) div sz"
proof -
  define q r where "q = n div sz" and "r = n mod sz"
  have n: "n = q * sz + r" and r: "0 \<le> r" "r < sz"
    using a by (simp_all add: q_def r_def)
  have lhs: "- (- n div sz) = (if r = 0 then q else q + 1)"
    using a by (simp add: zdiv_zminus1_eq_if q_def r_def)
  have "(n + sz - 1) div sz = (r + sz - 1 + q * sz) div sz"
    by (simp add: n algebra_simps)
  also have "\<dots> = (r + sz - 1) div sz + q"
    using a by simp
  also have "(r + sz - 1) div sz = (if r = 0 then 0 else 1)"
  proof (cases "r = 0")
    case True
    then show ?thesis using a by simp
  next
    case False
    then have "0 \<le> r - 1" "r - 1 < sz" using r by linarith+
    then have "(r - 1) div sz = 0" by simp
    moreover have "(r + sz - 1) div sz = (r - 1 + sz) div sz" by (simp add: algebra_simps)
    ultimately show ?thesis using a False by simp
  qed
  finally show ?thesis using lhs by simp
qed

lemma ceiling_as_div:
  "0 < (sz::int) \<Longrightarrow> \<lceil>of_int n / (of_int sz :: real)\<rceil> = (n + sz - 1) div sz"
  by (simp add: ceiling_divide_eq_div ceil_div_aux)

text \<open>
  With a positive size the loop leaves, from every offset \<open>off \<ge> 0\<close>: it appends to \<open>out\<close>
  pieces of at most \<open>sz\<close> bytes that make up the rest of the buffer. By induction on the
  number of bytes left.
\<close>

lemma sliceLoop_positive:
  assumes "0 < sz"
  shows "0 \<le> off \<Longrightarrow> \<exists>ps. sliceLoop ab sz off out = Some (out @ ps)
           \<and> concat ps = drop (nat off) ab
           \<and> (\<forall>p\<in>set ps. int (length p) \<le> sz)
           \<and> int (length ps) =
               (if off < int (length ab) then (int (length ab) - off + sz - 1) div sz else 0)"
proof (induction "nat (int (length ab) - off)" arbitrary: off out rule: less_induct)
  case less
  show ?case
  proof (cases "off < int (length ab)")
    case False
    then have "sliceLoop ab sz off out = Some out"
      by (subst sliceLoop.simps) simp
    with False show ?thesis by simp
  next
    case True
    let ?p = "slice_ab ab off (off + sz)"
    have p: "?p = take (nat sz) (drop (nat off) ab)"
      using less.prems True assms by (rule slice_ab_step)
    have "nat (int (length ab) - (off + sz)) < nat (int (length ab) - off)"
      using True assms by linarith
    moreover have "0 \<le> off + sz" using less.prems assms by simp
    ultimately obtain ps where ps:
      "sliceLoop ab sz (off + sz) (out @ [?p]) = Some ((out @ [?p]) @ ps)"
      "concat ps = drop (nat (off + sz)) ab" "\<forall>p\<in>set ps. int (length p) \<le> sz"
      "int (length ps) = (if off + sz < int (length ab)
                          then (int (length ab) - (off + sz) + sz - 1) div sz else 0)"
      using less.hyps[of "off + sz" "out @ [?p]"] by blast
    have unf: "sliceLoop ab sz off out = Some (out @ (?p # ps))"
      using True ps(1) by (subst sliceLoop.simps) simp
    have "nat (off + sz) = nat sz + nat off" using less.prems assms by linarith
    then have "drop (nat (off + sz)) ab = drop (nat sz) (drop (nat off) ab)"
      by simp
    then have cc: "concat (?p # ps) = drop (nat off) ab"
      using ps(2) p by (simp only: concat.simps append_take_drop_id)
    have len: "\<forall>q\<in>set (?p # ps). int (length q) \<le> sz"
      using ps(3) p assms by auto
    have cnt: "int (length (?p # ps)) = (int (length ab) - off + sz - 1) div sz"
    proof (cases "off + sz < int (length ab)")
      case True
      have "(int (length ab) - off + sz - 1) div sz
              = (int (length ab) - (off + sz) + sz - 1 + sz) div sz"
        by (simp add: algebra_simps)
      also have "\<dots> = (int (length ab) - (off + sz) + sz - 1) div sz + 1"
        using assms by simp
      finally show ?thesis using ps(4) True by simp
    next
      case False
      have "0 \<le> int (length ab) - off - 1" "int (length ab) - off - 1 < sz"
        using False \<open>off < int (length ab)\<close> by linarith+
      then have "(int (length ab) - off - 1) div sz = 0" by simp
      moreover have "(int (length ab) - off + sz - 1) div sz
                       = (int (length ab) - off - 1 + sz) div sz"
        by (simp add: algebra_simps)
      ultimately have "(int (length ab) - off + sz - 1) div sz = 1"
        using assms by simp
      then show ?thesis using ps(4) False by simp
    qed
    show ?thesis using unf cc len cnt True by (intro exI[of _ "?p # ps"]) simp
  qed
qed

text \<open>
  With a negative size the offset only falls, so the loop never leaves once it is
  entered. By the induction rule of the partial function: no value \<open>Some v\<close> can be the
  result.
\<close>

lemma sliceLoop_negative:
  assumes "sz < 0" "off < int (length ab)"
  shows "sliceLoop ab sz off out = None"
proof (cases "sliceLoop ab sz off out")
  case None
  then show ?thesis .
next
  case (Some y)
  have "\<not> (sz < 0 \<and> off < int (length ab))"
  proof (rule sliceLoop.raw_induct
      [where P = "\<lambda>a s f (u :: buffer list) (v :: buffer list). \<not> (s < 0 \<and> f < int (length a))",
        OF _ Some])
    fix loop :: "buffer \<Rightarrow> int \<Rightarrow> int \<Rightarrow> buffer list \<Rightarrow> buffer list option"
    fix a s f u v
    assume IH: "\<And>a s f u v. loop a s f u = Some v \<Longrightarrow> \<not> (s < 0 \<and> f < int (length a))"
      and unfolded: "(if f < int (length a)
                      then loop a s (f + s) (u @ [slice_ab a f (f + s)]) else Some u) = Some v"
    show "\<not> (s < 0 \<and> f < int (length a))"
    proof
      assume neg: "s < 0 \<and> f < int (length a)"
      with unfolded have "loop a s (f + s) (u @ [slice_ab a f (f + s)]) = Some v"
        by simp
      from IH[OF this] neg show False by simp
    qed
  qed
  with assms show ?thesis by simp
qed

text \<open>
  Claim C1. For every input and every \<open>chunkSize > 0\<close>, \<^verbatim>\<open>sliceIntoChunks\<close> returns pieces of
  at most \<open>chunkSize\<close> bytes each, whose concatenation in order is the input, and their
  number is \<open>\<lceil>length / chunkSize\<rceil>\<close>; for a zero-length input it returns no piece.
\<close>

theorem sliceIntoChunks_pieces:
  assumes "0 < chunkSize"
  shows "(\<exists>pieces. sliceIntoChunks input (Some chunkSize) = Some pieces
            \<and> (\<forall>p\<in>set pieces. int (length p) \<le> chunkSize)
            \<and> concat pieces = input
            \<and> int (length pieces) = \<lceil>real (length input) / real_of_int chunkSize\<rceil>)
         \<and> sliceIntoChunks [] (Some chunkSize) = Some []"
proof -
  obtain ps where ps: "sliceLoop input chunkSize 0 [] = Some ([] @ ps)"
    "concat ps = drop (nat 0) input" "\<forall>p\<in>set ps. int (length p) \<le> chunkSize"
    "int (length ps) = (if 0 < int (length input)
                        then (int (length input) - 0 + chunkSize - 1) div chunkSize else 0)"
    using sliceLoop_positive[OF assms, of 0 input "[]"] by auto
  have "\<lceil>real (length input) / real_of_int chunkSize\<rceil>
          = (int (length input) + chunkSize - 1) div chunkSize"
    using ceiling_as_div[OF assms, of "int (length input)"] by simp
  moreover have "input = [] \<Longrightarrow> (int (length input) + chunkSize - 1) div chunkSize = 0"
    using assms by simp
  ultimately have "int (length ps) = \<lceil>real (length input) / real_of_int chunkSize\<rceil>"
    using ps(4) by (cases "input = []") simp_all
  moreover have "sliceIntoChunks input (Some chunkSize) = Some ps"
    using ps(1) assms by (simp add: sliceIntoChunks_def)
  moreover have "sliceIntoChunks [] (Some chunkSize) = Some []"
    using assms by (simp add: sliceIntoChunks_def sliceLoop.simps)
  ultimately show ?thesis using ps(2,3) by auto
qed

theorem sliceIntoChunks_pieces_witness:
  "(0::int) < 2
   \<and> (\<exists>pieces. sliceIntoChunks [1, 2, 3, 4, 5] (Some 2) = Some pieces
         \<and> list_all (\<lambda>p. int (length p) \<le> 2) pieces
         \<and> concat pieces = [1, 2, 3, 4, 5]
         \<and> int (length pieces) = 3)
   \<and> sliceIntoChunks [] (Some 2) = Some []"
  using sliceIntoChunks_pieces[of 2 "[1, 2, 3, 4, 5]"] by (simp add: list_all_iff)

text \<open>
  Claim C8, as the source has it. The slicer returns for every input when the size is
  positive, zero or not given; for a size that is zero or not given the result is the
  one unsliced input, also when the input is empty. The source has no check of a negative
  size.
\<close>

theorem sliceIntoChunks_terminates:
  "sliceIntoChunks input None = Some [input]
   \<and> sliceIntoChunks input (Some 0) = Some [input]
   \<and> (\<forall>chunkSize. 0 \<le> chunkSize \<longrightarrow> (\<exists>pieces. sliceIntoChunks input (Some chunkSize) = Some pieces))"
proof -
  have "\<exists>pieces. sliceIntoChunks input (Some chunkSize) = Some pieces"
    if "0 \<le> chunkSize" for chunkSize
  proof (cases "chunkSize = 0")
    case True
    then show ?thesis by (simp add: sliceIntoChunks_def)
  next
    case False
    with that have pos: "0 < chunkSize" by simp
    from sliceLoop_positive[OF pos, of 0 input "[]"] pos show ?thesis
      by (auto simp: sliceIntoChunks_def)
  qed
  then show ?thesis by (simp add: sliceIntoChunks_def)
qed

theorem sliceIntoChunks_terminates_witness:
  "sliceIntoChunks [] None = Some [[]]
   \<and> sliceIntoChunks [] (Some 0) = Some [[]]
   \<and> (0::int) \<le> 2
   \<and> (\<exists>pieces. sliceIntoChunks [1, 2, 3] (Some 2) = Some pieces)"
  using sliceIntoChunks_terminates[of "[]"] sliceIntoChunks_terminates[of "[1, 2, 3]"]
  by simp

text \<open>
  Claim C8 as it is written fails for a negative size: on a zero-length input the
  function returns normally, with no piece rather than one, and on the one-byte input it
  never returns.
\<close>

theorem sliceIntoChunks_negative_counterexample:
  "sliceIntoChunks [] (Some (- 1)) = Some []
   \<and> map_option length (sliceIntoChunks [] (Some (- 1))) \<noteq> Some 1
   \<and> sliceIntoChunks [1] (Some (- 1)) = None"
proof -
  have "sliceIntoChunks [] (Some (- 1)) = Some []"
    by (simp add: sliceIntoChunks_def sliceLoop.simps)
  moreover have "sliceIntoChunks [1] (Some (- 1)) = None"
    by (simp add: sliceIntoChunks_def sliceLoop_negative)
  ultimately show ?thesis by simp
qed

section \<open>The producer's state machine\<close>

lemmas app_defs = app_run_def app_step_def App_def canConnect_def canRecord_def canStop_def
  startConnection_def resetSessionPromise_def wsIsOpen_def onopen_def ws_send_def
  set_readyState_def onmessage_def startRecording_def stopRecording_def onerror_def onclose_def
  stopRecorderLocal_def cleanupMedia_def

lemma app_inv_step: "app_inv p \<Longrightarrow> app_inv (app_step e p)"
  unfolding app_inv_def
  by (cases e) (auto simp: app_step_def canConnect_def canRecord_def canStop_def
      startConnection_def resetSessionPromise_def wsIsOpen_def onopen_def ws_send_def
      set_readyState_def onmessage_def startRecording_def stopRecording_def onerror_def onclose_def
      stopRecorderLocal_def cleanupMedia_def Let_def
      split: option.splits evt_data.splits json.splits media.splits if_splits)

lemma app_inv_run: "app_inv p \<Longrightarrow> app_inv (app_run es p)"
  unfolding app_run_def by (induction es arbitrary: p) (simp_all add: app_inv_step)

lemma app_inv_App: "app_inv App"
  by (simp add: app_inv_def App_def)

lemma ready_trace_Ready:
  "status (app_run ready_trace App) = Ready \<and> sessionReadyRef (app_run ready_trace App)
   \<and> uploadKey (app_run ready_trace App) = Some ''a''
   \<and> resolveCalls (app_run ready_trace App) = 1"
  by (simp add: ready_trace_def app_defs)

lemma uploadInfo_in_Ready:
  assumes "status (app_run es App) = Ready"
  shows "app_step (WsMessage (FromServer (UploadInfo k u d))) (app_run es App)
           = (app_run es App)\<lparr>uploadKey := k\<rparr>"
proof -
  have "app_inv (app_run es App)" by (rule app_inv_run[OF app_inv_App])
  with assms show ?thesis
    by (auto simp: app_inv_def app_step_def onmessage_def split: option.splits)
qed

text \<open>
  Claim C5. In every reachable state of phase \<open>Ready\<close>, a session-ready acknowledgment
  that is received again, with the key the producer has stored (the consumer sends the
  one key of the session in each of its acknowledgments), changes nothing: the state is
  the same as before. Whatever key it carries, the status is still \<open>Ready\<close> and the
  resolver of the promise is not called a second time. And in every state, receiving the
  acknowledgment of a key a second time gives the state that receiving it once gave.
\<close>

theorem second_uploadInfo_while_Ready:
  assumes "status (app_run es App) = Ready"
  shows "app_step (WsMessage (FromServer (UploadInfo (uploadKey (app_run es App)) u d)))
             (app_run es App) = app_run es App
         \<and> status (app_step (WsMessage (FromServer (UploadInfo k' u d))) (app_run es App)) = Ready
         \<and> resolveCalls (app_step (WsMessage (FromServer (UploadInfo k' u d))) (app_run es App))
             = resolveCalls (app_run es App)
         \<and> onmessage c (FromServer (UploadInfo k u' d')) (onmessage c (FromServer (UploadInfo k u d)) p)
             = onmessage c (FromServer (UploadInfo k u d)) p"
proof -
  have "app_step (WsMessage (FromServer (UploadInfo (uploadKey (app_run es App)) u d)))
          (app_run es App) = app_run es App"
    using uploadInfo_in_Ready[OF assms, of "uploadKey (app_run es App)" u d] by simp
  moreover have "status (app_step (WsMessage (FromServer (UploadInfo k' u d))) (app_run es App))
                   = Ready"
    using uploadInfo_in_Ready[OF assms, of k' u d] assms by simp
  moreover have "resolveCalls (app_step (WsMessage (FromServer (UploadInfo k' u d)))
                   (app_run es App)) = resolveCalls (app_run es App)"
    using uploadInfo_in_Ready[OF assms, of k' u d] by simp
  moreover have "onmessage c (FromServer (UploadInfo k u' d'))
                   (onmessage c (FromServer (UploadInfo k u d)) p)
                 = onmessage c (FromServer (UploadInfo k u d)) p"
    by (cases "sessionReadyPromiseRef p") (simp_all add: onmessage_def Let_def)
  ultimately show ?thesis by simp
qed

theorem second_uploadInfo_while_Ready_witness:
  "status (app_run ready_trace App) = Ready
   \<and> uploadKey (app_run ready_trace App) = Some ''a''
   \<and> app_step (WsMessage (FromServer (UploadInfo (Some ''a'') (Some ''u'') False)))
        (app_run ready_trace App) = app_run ready_trace App
   \<and> resolveCalls (app_step (WsMessage (FromServer (UploadInfo (Some ''a'') (Some ''u'') False)))
        (app_run ready_trace App)) = 1"
  using second_uploadInfo_while_Ready[of ready_trace "Some ''u''" False "Some ''a''"]
    ready_trace_Ready
  by simp

text \<open>
  The handlers of a socket never hold the status \<open>Recording\<close>, so in every reachable state
  that has a socket an error acknowledgment sets the status \<open>Error\<close>.
\<close>

lemma error_ack_sets_Error:
  assumes "status (app_run es App) \<noteq> Idle"
  shows "status (app_step (WsMessage (FromServer (ErrorAck m))) (app_run es App)) = Error"
proof -
  have "app_inv (app_run es App)" by (rule app_inv_run[OF app_inv_App])
  with assms show ?thesis
    by (auto simp: app_inv_def app_step_def onmessage_def canConnect_def split: option.splits)
qed

text \<open>
  Claim C7, at the failing input. The user connects from \<open>Idle\<close>, the session is
  acknowledged, the user records; the consumer then sends an error acknowledgment. The
  guard \<^verbatim>\<open>if (status !== 'Recording')\<close> reads the status of the closure, \<open>Idle\<close>, and the
  producer in phase \<open>Recording\<close> moves to \<open>Error\<close>.
\<close>

theorem error_ack_while_Recording:
  "status (app_run recording_trace App) = Recording
   \<and> map_option status_closure (wsRef (app_run recording_trace App)) = Some Idle
   \<and> status (app_step (WsMessage (FromServer (ErrorAck ''x''))) (app_run recording_trace App))
       = Error"
  by (simp add: recording_trace_def ready_trace_def app_defs)

section \<open>The send loop\<close>

lemma same_but_channel_refl: "same_but_channel p p"
  by (simp add: same_but_channel_def)

lemma same_but_channel_observe:
  "same_but_channel p q \<Longrightarrow> same_but_channel p (observe x q)"
  by (cases "wsRef q") (auto simp: same_but_channel_def observe_def)

lemma same_but_channel_fields:
  assumes "same_but_channel p q"
  shows "status q = status p \<and> errorMsg q = errorMsg p \<and> bytesSent q = bytesSent p
         \<and> console q = console p \<and> map_option outbox (wsRef q) = map_option outbox (wsRef p)"
proof -
  from assms have e: "q\<lparr>wsRef := wsRef p\<rparr> = p" by (simp add: same_but_channel_def)
  have "status (q\<lparr>wsRef := wsRef p\<rparr>) = status q" "errorMsg (q\<lparr>wsRef := wsRef p\<rparr>) = errorMsg q"
    "bytesSent (q\<lparr>wsRef := wsRef p\<rparr>) = bytesSent q" "console (q\<lparr>wsRef := wsRef p\<rparr>) = console q"
    by simp_all
  with e assms show ?thesis by (simp add: same_but_channel_def)
qed

text \<open>
  When the wait ends, it has changed nothing but the socket's \<^verbatim>\<open>readyState\<close> and
  \<^verbatim>\<open>bufferedAmount\<close>. By the induction rule of the partial function.
\<close>

lemma backpressureWait_frame:
  assumes "backpressureWait chan n p = Some (n', p')"
  shows "same_but_channel p p' \<and> n \<le> n' \<and> \<not> mustWait p'"
proof -
  have "\<forall>p0. same_but_channel p0 p \<longrightarrow>
          same_but_channel p0 (snd (n', p')) \<and> n \<le> fst (n', p') \<and> \<not> mustWait (snd (n', p'))"
  proof (rule backpressureWait.raw_induct
      [where P = "\<lambda>c n p r. \<forall>p0. same_but_channel p0 p \<longrightarrow>
                     same_but_channel p0 (snd r) \<and> n \<le> fst r \<and> \<not> mustWait (snd r)",
        OF _ assms])
    fix wait :: "channel \<Rightarrow> nat \<Rightarrow> producer \<Rightarrow> (nat \<times> producer) option"
    fix c n p r
    assume IH: "\<And>c n p r. wait c n p = Some r \<Longrightarrow>
                  \<forall>p0. same_but_channel p0 p \<longrightarrow>
                    same_but_channel p0 (snd r) \<and> n \<le> fst r \<and> \<not> mustWait (snd r)"
      and unfolded: "(if mustWait p then wait c (Suc n) (observe (c n) p) else Some (n, p)) = Some r"
    show "\<forall>p0. same_but_channel p0 p \<longrightarrow>
            same_but_channel p0 (snd r) \<and> n \<le> fst r \<and> \<not> mustWait (snd r)"
    proof (intro allI impI)
      fix p0
      assume same: "same_but_channel p0 p"
      show "same_but_channel p0 (snd r) \<and> n \<le> fst r \<and> \<not> mustWait (snd r)"
      proof (cases "mustWait p")
        case True
        with unfolded have "wait c (Suc n) (observe (c n) p) = Some r" by simp
        from IH[OF this] same_but_channel_observe[OF same, of "c n"] show ?thesis by auto
      next
        case False
        with unfolded same show ?thesis by auto
      qed
    qed
  qed
  then show ?thesis using same_but_channel_refl by auto
qed

text \<open>
  Claim C6, as the source has it. When a piece is about to be sent and the wait loop
  leaves with the channel not \<^verbatim>\<open>OPEN\<close>, the sender abandons that piece and all the pieces
  after it, does not try again, writes the warning to the console and returns normally:
  nothing is thrown to the caller, and the status, the error message, the count of bytes
  sent and the frames given to the socket are as before.
\<close>

theorem sendChunks_channel_not_open:
  assumes "backpressureWait chan n p = Some (n', p')" and "\<not> wsIsOpen p'"
  shows "sendChunks chan n (c # cs) p
           = Some (Returns (n', p'\<lparr>console := console p @ [''Socket closed mid-send'']\<rparr>))
         \<and> status p' = status p \<and> errorMsg p' = errorMsg p \<and> bytesSent p' = bytesSent p
         \<and> map_option outbox (wsRef p') = map_option outbox (wsRef p)"
proof -
  from backpressureWait_frame[OF assms(1)] have "same_but_channel p p'" by simp
  from same_but_channel_fields[OF this] assms show ?thesis by simp
qed

lemma congested_wait:
  "backpressureWait closing_channel 0 congested
     = Some (2, observe (CLOSED, 5 * 1024 * 1024) congested)"
  by (simp add: backpressureWait.simps mustWait_def observe_def congested_def closing_channel_def
      BACKPRESSURE_HIGH_def recording_trace_def ready_trace_def app_defs)

theorem sendChunks_channel_not_open_witness:
  "backpressureWait closing_channel 0 congested
     = Some (2, observe (CLOSED, 5 * 1024 * 1024) congested)
   \<and> \<not> wsIsOpen (observe (CLOSED, 5 * 1024 * 1024) congested)
   \<and> sendChunks closing_channel 0 [[1], [2]] congested
       = Some (Returns (2, (observe (CLOSED, 5 * 1024 * 1024) congested)
                              \<lparr>console := [''Socket closed mid-send'']\<rparr>))
   \<and> status (observe (CLOSED, 5 * 1024 * 1024) congested) = Recording
   \<and> errorMsg (observe (CLOSED, 5 * 1024 * 1024) congested) = None"
proof -
  have o: "\<not> wsIsOpen (observe (CLOSED, 5 * 1024 * 1024) congested)"
    by (simp add: wsIsOpen_def observe_def split: option.splits)
  have f: "status congested = Recording" "errorMsg congested = None" "console congested = []"
    by (simp_all add: observe_def congested_def recording_trace_def ready_trace_def app_defs)
  from sendChunks_channel_not_open[OF congested_wait o, of "[1]" "[[2]]"] congested_wait o f
  show ?thesis by simp
qed

text \<open>
  Claim C6 as it is written fails: with the socket closed while recording, the handler
  returns, having logged the warning; it throws nothing, and the status and the error
  message are what they were.
\<close>

theorem ondataavailable_closed_counterexample:
  "ondataavailable dead_channel [1, 2, 3] (app_run closed_trace App)
     = Some (Returns (0, (app_run closed_trace App)\<lparr>console := [''Socket closed mid-send'']\<rparr>))
   \<and> status (app_run closed_trace App) = Recording
   \<and> errorMsg (app_run closed_trace App) = None"
  by (simp add: ondataavailable_def sliceIntoChunks_def sliceLoop.simps slice_ab_def CHUNK_SIZE_def
      backpressureWait.simps mustWait_def
      closed_trace_def recording_trace_def ready_trace_def app_defs)

section \<open>The aggregator: the sizes of the parts\<close>

lemma uploads_append: "uploads (xs @ ys) = uploads xs @ uploads ys"
  by (induction xs rule: uploads.induct) simp_all

lemma length_Buffer_concat: "length (Buffer_concat bs n) = n"
  by (simp add: Buffer_concat_def)

lemma Buffer_concat_exact: "length (concat bs) = n \<Longrightarrow> Buffer_concat bs n = concat bs"
  by (simp add: Buffer_concat_def)

lemma length_frame: "length (frame n) = n"
  by (simp add: frame_def)

lemma run_Nil: "run ev [] s = s"
  by (simp add: run_def)

lemma run_Cons: "run ev (e # es) s = run ev es (step ev e s)"
  by (simp add: run_def)

text \<open>
  Only \<^verbatim>\<open>flushPart\<close> sends a commit call, and only behind its test of \<^verbatim>\<open>aggBytes\<close>; every
  other part of a handler sends other commands or none.
\<close>

lemma pos_sendJSON: "pos_uploads (s3log (sendJSON ev j s)) = pos_uploads (s3log s)"
  by (simp add: sendJSON_def)

lemma pos_reset: "pos_uploads (s3log (reset s)) = pos_uploads (s3log s)"
  by (simp add: reset_def)

lemma pos_yield: "pos_uploads (s3log (yield k s)) = pos_uploads (s3log s)"
  by (simp add: yield_def)

lemma pos_catch_message: "pos_uploads (s3log (catch_message ev e s)) = pos_uploads (s3log s)"
  by (simp add: catch_message_def pos_sendJSON)

lemma pos_stop_failed: "pos_uploads (s3log (stop_failed ev s)) = pos_uploads (s3log s)"
  by (simp add: stop_failed_def pos_reset pos_sendJSON)

lemma pos_s3_send:
  "pos_uploads (s3log (s3_send cmd k s)) = (pos_uploads (s3log s) \<and> pos_uploads [cmd])"
  by (simp add: s3_send_def pos_uploads_def uploads_append)

lemma pos_other_commands:
  "pos_uploads [CreateMultipartUploadCommand k]"
  "pos_uploads [CompleteMultipartUploadCommand k u ps]"
  "pos_uploads [AbortMultipartUploadCommand k u]"
  "pos_uploads [PutObjectCommand k b]"
  "pos_uploads [UploadPartCommand k u n b] = (0 < length b)"
  by (simp_all add: pos_uploads_def)

lemma pos_flushPart:
  assumes "flushPart c isFinal s = (b, s')" "pos_uploads (s3log s)"
  shows "pos_uploads (s3log s')"
  using assms
  by (auto simp: flushPart_def pos_s3_send pos_other_commands Let_def
      length_Buffer_concat split: option.splits if_splits)

lemma pos_startMultipart:
  assumes "startMultipart s = (b, s')" "pos_uploads (s3log s)"
  shows "pos_uploads (s3log s')"
  using assms
  by (auto simp: startMultipart_def pos_s3_send pos_other_commands split: if_splits)

lemma pos_startMultipart_resumed:
  assumes "startMultipart_resumed ev r s = (q, s')" "pos_uploads (s3log s)"
  shows "pos_uploads (s3log s')"
  using assms
  by (auto simp: startMultipart_resumed_def sendJSON_def Let_def split: s3result.splits)

lemma pos_flushPart_resumed:
  assumes "flushPart_resumed ev body r s = (q, s')" "pos_uploads (s3log s)"
  shows "pos_uploads (s3log s')"
  using assms
  by (auto simp: flushPart_resumed_def sendJSON_def Let_def split: s3result.splits option.splits)

lemma pos_after_startMultipart:
  assumes "pos_uploads (s3log s)"
  shows "pos_uploads (s3log (after_startMultipart s))"
proof (cases "flushPart FromBinary False s")
  case (Pair b s1)
  from pos_flushPart[OF Pair assms] Pair assms show ?thesis
    by (cases b) (simp_all add: after_startMultipart_def pos_yield)
qed

lemma pos_after_flushPart_final:
  assumes "pos_uploads (s3log s)"
  shows "pos_uploads (s3log (after_flushPart_final ev s))"
  using assms
  by (auto simp: after_flushPart_final_def pos_stop_failed pos_s3_send pos_other_commands
      Let_def split: option.splits)

lemma pos_completeUpload:
  assumes "pos_uploads (s3log s)"
  shows "pos_uploads (s3log (completeUpload s))"
proof (cases "flushPart FromStop True s")
  case (Pair b s1)
  from pos_flushPart[OF Pair assms] Pair assms show ?thesis
    by (cases b) (simp_all add: completeUpload_def pos_yield pos_s3_send pos_other_commands)
qed

lemma pos_onBinary:
  assumes "pos_uploads (s3log s)"
  shows "pos_uploads (s3log (onBinary ev d s))"
proof (cases "truthy (key s)")
  case False
  with assms show ?thesis by (simp add: onBinary_def pos_sendJSON)
next
  case True
  define s1 where "s1 = s\<lparr>aggBuffers := aggBuffers s @ [d], aggBytes := aggBytes s + length d,
                       totalReceivedBytes := totalReceivedBytes s + length d\<rparr>"
  have p1: "pos_uploads (s3log s1)" using assms by (simp add: s1_def)
  obtain b s2 where m: "startMultipart s1 = (b, s2)" by (cases "startMultipart s1")
  from pos_startMultipart[OF m p1] have p2: "pos_uploads (s3log s2)" .
  show ?thesis
    using True m p2 pos_after_startMultipart[OF p1]
    by (cases b) (simp_all add: onBinary_def s1_def[symmetric] Let_def pos_yield)
qed

lemma pos_onControl:
  assumes "pos_uploads (s3log s)"
  shows "pos_uploads (s3log (onControl ev c s))"
  using assms pos_completeUpload[OF assms]
  by (cases c) (simp_all add: onControl_def pos_sendJSON pos_catch_message Let_def)

lemma pos_onClose:
  assumes "pos_uploads (s3log s)"
  shows "pos_uploads (s3log (onClose s))"
  using assms
  by (auto simp: onClose_def pos_s3_send pos_other_commands Let_def split: option.splits)

lemma pos_resume:
  assumes "pos_uploads (s3log s)"
  shows "pos_uploads (s3log (resume ev k r s))"
proof (cases k)
  case InStartMultipart
  obtain q s1 where h: "startMultipart_resumed ev r s = (q, s1)"
    by (cases "startMultipart_resumed ev r s")
  from pos_startMultipart_resumed[OF h assms] have "pos_uploads (s3log s1)" .
  with InStartMultipart h show ?thesis
    by (cases q) (simp_all add: resume_def pos_catch_message pos_after_startMultipart)
next
  case AfterStartMultipart
  with assms show ?thesis by (simp add: resume_def pos_after_startMultipart)
next
  case (InFlushPart c body)
  obtain q s1 where h: "flushPart_resumed ev body r s = (q, s1)"
    by (cases "flushPart_resumed ev body r s")
  from pos_flushPart_resumed[OF h assms] have "pos_uploads (s3log s1)" .
  with InFlushPart h show ?thesis
    by (cases q; cases c)
      (simp_all add: resume_def pos_catch_message pos_stop_failed pos_after_flushPart_final)
next
  case (AfterFlushPart c)
  with assms show ?thesis by (cases c) (simp_all add: resume_def pos_after_flushPart_final)
next
  case InPutObject
  with assms show ?thesis
    by (cases r) (simp_all add: resume_def pos_stop_failed pos_reset pos_sendJSON)
next
  case InComplete
  with assms show ?thesis
    by (cases r; cases "session s")
      (simp_all add: resume_def pos_stop_failed pos_reset pos_sendJSON)
next
  case InAbort
  with assms show ?thesis by (simp add: resume_def)
qed

lemma pos_step:
  assumes "pos_uploads (s3log s)"
  shows "pos_uploads (s3log (step ev e s))"
proof (cases e)
  case (Message m)
  with assms pos_onControl[OF assms] pos_onBinary[OF assms] show ?thesis
    by (cases m) (simp_all add: step_def onMessage_def)
next
  case Close
  with pos_onClose[OF assms] show ?thesis by (simp add: step_def)
next
  case (Settle i r)
  have "pos_uploads (s3log (s\<lparr>pending := take i (pending s) @ drop (Suc i) (pending s)\<rparr>))"
    using assms by simp
  from pos_resume[OF this] Settle assms show ?thesis by (simp add: step_def)
qed

lemma pos_run: "pos_uploads (s3log s) \<Longrightarrow> pos_uploads (s3log (run ev es s))"
  by (induction es arbitrary: s) (simp_all add: run_Nil run_Cons pos_step)

lemmas server_defs = run_def step_def onMessage_def onControl_def onBinary_def onClose_def
  startMultipart_def startMultipart_resumed_def flushPart_def flushPart_resumed_def
  completeUpload_def after_startMultipart_def after_flushPart_final_def resume_def
  catch_message_def stop_failed_def s3_send_def yield_def sendJSON_def reset_def truthy_def
  new_key_def connection_def MIN_PART_SIZE_def TARGET_PART_SIZE_def length_frame
  length_Buffer_concat Let_def

lemma committed_A_run:
  "usingMultipart (run quiet committed_A connection)
   \<and> map_option (\<lambda>x. map PartNumber (parts x)) (session (run quiet committed_A connection))
       = Some [1]
   \<and> aggBytes (run quiet committed_A connection) = 0
   \<and> pending (run quiet committed_A connection) = []
   \<and> uploads (s3log (run quiet committed_A connection)) = [(1, 6 * 1024 * 1024)]"
  by (simp add: server_defs quiet_def committed_A_def two_frames_def)

lemma scenario_A_run:
  "uploads (s3log (run quiet scenario_A connection)) = [(1, 6 * 1024 * 1024)]
   \<and> length (s3log (run quiet scenario_A connection)) = 3
   \<and> pending (run quiet scenario_A connection) = []"
  by (simp add: server_defs quiet_def scenario_A_def committed_A_def two_frames_def)

text \<open>
  Claim C9. \<^verbatim>\<open>flushPart\<close> returns at once and changes nothing when \<^verbatim>\<open>aggBytes\<close> is 0, forced
  or not; a stop request that finds the buffer empty in multipart mode sends nothing to
  the store before it goes on; and in every run of a connection, whatever the order in
  which frames arrive and waiting handlers go on, the body of every commit call holds at
  least one byte: no session commits a zero-byte part.
\<close>

theorem no_zero_byte_part:
  "(aggBytes s = 0 \<longrightarrow> flushPart c isFinal s = (False, s))
   \<and> (usingMultipart s \<and> aggBytes s = 0 \<longrightarrow> s3log (completeUpload s) = s3log s)
   \<and> list_all (\<lambda>u. 0 < snd u) (uploads (s3log (run ev es connection)))"
proof -
  have f: "flushPart c' fin s = (False, s)" if "aggBytes s = 0" for c' fin
    using that by (simp add: flushPart_def split: option.splits)
  have "s3log (completeUpload s) = s3log s" if "usingMultipart s" "aggBytes s = 0"
    using that f[OF that(2), of FromStop True] by (simp add: completeUpload_def yield_def)
  moreover have "pos_uploads (s3log connection)"
    by (simp add: pos_uploads_def connection_def)
  then have "pos_uploads (s3log (run ev es connection))" by (rule pos_run)
  ultimately show ?thesis using f by (simp add: pos_uploads_def)
qed

text \<open>
  The witness is the connection of scenario A when its one part is committed: it is in
  multipart mode, with a session and an empty buffer, so the forced flush of the stop
  request returns at the test of \<^verbatim>\<open>aggBytes\<close>.
\<close>

theorem no_zero_byte_part_witness:
  "usingMultipart (run quiet committed_A connection)
   \<and> map_option (\<lambda>x. map PartNumber (parts x)) (session (run quiet committed_A connection))
       = Some [1]
   \<and> aggBytes (run quiet committed_A connection) = 0
   \<and> flushPart FromStop True (run quiet committed_A connection)
       = (False, run quiet committed_A connection)
   \<and> s3log (completeUpload (run quiet committed_A connection))
       = s3log (run quiet committed_A connection)
   \<and> uploads (s3log (run quiet scenario_A connection)) = [(1, 6 * 1024 * 1024)]
   \<and> list_all (\<lambda>u. 0 < snd u) (uploads (s3log (run quiet scenario_A connection)))"
  using no_zero_byte_part[of "run quiet committed_A connection" FromStop True quiet scenario_A]
    committed_A_run scenario_A_run
  by simp

section \<open>Scenario A\<close>

text \<open>
  Claim C2, as the source has it. Three frames of 2 MiB. After frame 2 the buffer holds
  4 MiB, below the threshold of 5 MiB: the session is still undecided and nothing was sent
  to the store. Frame 3 brings the buffer to 6 MiB and sends the begin call. When the
  store has accepted it, multipart mode begins and the 6 MiB are sent as part 1; when the
  store has accepted that call too, the part is recorded. A stop request that arrives
  then finds no byte buffered: it commits no further part and completes the upload with
  the one part.
\<close>

theorem scenario_A_three_frames:
  assumes "length f1 = 2 * 1024 * 1024" "length f2 = 2 * 1024 * 1024" "length f3 = 2 * 1024 * 1024"
  shows "let k = Some (new_key ev connection);
             s2 = run ev [Message (Text Start), Message (Binary f1), Message (Binary f2)] connection;
             s3 = step ev (Message (Binary f3)) s2;
             s3a = step ev (Settle 0 (Resolves uid)) s3;
             s3b = step ev (Settle 0 (Resolves etag)) s3a;
             s4 = run ev [Message (Text Stop), Settle 0 r, Settle 0 (Resolves loc)] s3b
         in \<not> usingMultipart s2 \<and> s3log s2 = [] \<and> pending s2 = []
            \<and> aggBytes s2 = 4 * 1024 * 1024
            \<and> s3log s3 = [CreateMultipartUploadCommand k] \<and> pending s3 = [InStartMultipart]
            \<and> usingMultipart s3a \<and> aggBytes s3a = 0
            \<and> s3log s3a = [CreateMultipartUploadCommand k,
                            UploadPartCommand k uid 1 (f1 @ f2 @ f3)]
            \<and> map_option parts (session s3b) = Some [\<lparr>PartNumber = 1, ETag = etag\<rparr>]
            \<and> pending s3b = []
            \<and> s3log s4 = s3log s3a @
                 [CompleteMultipartUploadCommand k uid [\<lparr>PartNumber = 1, ETag = etag\<rparr>]]
            \<and> uploads (s3log s4) = [(1, 6 * 1024 * 1024)]
            \<and> fst (last (jsonLog s4)) = CompletedAck (Some loc) k
            \<and> is_reset s4 \<and> pending s4 = []"
proof -
  have b: "Buffer_concat [f1, f2, f3] 6291456 = f1 @ f2 @ f3"
    using assms by (simp add: Buffer_concat_exact)
  show ?thesis
    unfolding Let_def using assms b by (simp add: server_defs is_reset_def)
qed

theorem scenario_A_three_frames_witness:
  "length (frame (2 * 1024 * 1024)) = 2 * 1024 * 1024
   \<and> \<not> usingMultipart (run quiet two_frames connection)
   \<and> uploads (s3log (run quiet scenario_A connection)) = [(1, 6 * 1024 * 1024)]
   \<and> last (s3log (run quiet scenario_A connection))
       = CompleteMultipartUploadCommand (Some ''recordings/t.webm'') ''u''
           [\<lparr>PartNumber = 1, ETag = ''e''\<rparr>]
   \<and> length (s3log (run quiet scenario_A connection)) = 3"
  using scenario_A_three_frames[of "frame (2 * 1024 * 1024)" "frame (2 * 1024 * 1024)"
      "frame (2 * 1024 * 1024)" quiet "''u''" "''e''" "Resolves []" "''l''", unfolded Let_def]
  by (simp add: length_frame quiet_def run_def new_key_def connection_def
      scenario_A_def committed_A_def two_frames_def)

text \<open>
  Claim C2 as it is written fails at its second frame: after two frames of 2 MiB the
  threshold of 5 MiB is not crossed, multipart mode has not begun and no begin call was
  sent. And the end of the scenario depends on when the store answers: if the stop
  request arrives while the commit call is outstanding, the complete call is sent with no
  part.
\<close>

theorem scenario_A_frame_2_counterexample:
  "\<not> usingMultipart (run quiet two_frames connection)
   \<and> begins (s3log (run quiet two_frames connection)) = []
   \<and> aggBytes (run quiet two_frames connection) = 4 * 1024 * 1024
   \<and> aggBytes (run quiet two_frames connection) < MIN_PART_SIZE
   \<and> last (s3log (run quiet early_stop_A connection))
       = CompleteMultipartUploadCommand (Some ''recordings/t.webm'') ''u'' []"
  by (simp add: server_defs quiet_def two_frames_def early_stop_A_def)

section \<open>Handlers that overlap\<close>

text \<open>
  Claim C4, at the failing input. A frame brings the buffer to 5 MiB and the begin call
  is sent; the next frame arrives before the store has answered. \<^verbatim>\<open>usingMultipart\<close> is
  still false, so the guard lets the second handler send the begin call again. The store
  accepts both calls, and the session keeps the upload id of the second.
\<close>

theorem begin_call_issued_twice:
  "begins (s3log (run quiet begin_twice connection))
     = [Some ''recordings/t.webm'', Some ''recordings/t.webm'']
   \<and> map_option uploadId (session (run quiet begin_twice connection)) = Some ''u2''
   \<and> map fst (jsonLog (run quiet begin_twice connection))
       = [UploadInfo (Some ''recordings/t.webm'') None True,
          UploadInfo (Some ''recordings/t.webm'') (Some ''u1'') False,
          UploadInfo (Some ''recordings/t.webm'') (Some ''u2'') False]"
  by (simp add: server_defs quiet_def begin_twice_def)

text \<open>
  Claim C3, at the failing input. The first 6 MiB are sent as part 1; the next 6 MiB
  arrive before the store has answered and are sent as part 2. When the store answers,
  each handler records the part with the counter as it is then: both parts are recorded
  with number 2, and no part has number 1. The store accepted every call.
\<close>

theorem parts_recorded_with_later_number:
  "uploads (s3log (run quiet two_commits_in_flight connection))
     = [(1, 6 * 1024 * 1024), (2, 6 * 1024 * 1024)]
   \<and> map_option (\<lambda>x. map PartNumber (parts x))
        (session (run quiet two_commits_in_flight connection)) = Some [2, 2]
   \<and> map_option (\<lambda>x. map ETag (parts x))
        (session (run quiet two_commits_in_flight connection)) = Some [''a'', ''b'']"
  by (simp add: server_defs quiet_def two_commits_in_flight_def)


end
